theory Spec2Isabelle
  imports Main "HOL-Library.Multiset"
begin

section \<open>The Python 2 standard library, as far as \<^verbatim>\<open>familysearch.py\<close> calls it\<close>

text \<open>
  \<^verbatim>\<open>familysearch.py\<close> is Python 2 (\<^verbatim>\<open>import urllib, urllib2, urlparse\<close>). A Python 2
  \<^verbatim>\<open>str\<close> is a byte string, which is what \<^typ>\<open>string\<close> is. The functions of this
  section are not code of the repository: they follow CPython 2.7's \<^verbatim>\<open>urlparse.py\<close>,
  \<^verbatim>\<open>urllib.py\<close> and \<^verbatim>\<open>urllib2.py\<close>, with their keyword arguments at the defaults
  the repository leaves them at unless the argument is written out.
\<close>

subsection \<open>String methods\<close>

fun index_of :: "char \<Rightarrow> string \<Rightarrow> nat option" where
  "index_of c [] = None"
| "index_of c (x # xs) = (if x = c then Some 0 else map_option Suc (index_of c xs))"

definition str_find :: "string \<Rightarrow> char \<Rightarrow> nat \<Rightarrow> int" where
  \<comment> \<open>\<^verbatim>\<open>s.find(c, start)\<close>: the first index at or after \<open>start\<close>, or \<open>-1\<close>.\<close>
  "str_find s c start =
     (case index_of c (drop start s) of None \<Rightarrow> - 1 | Some i \<Rightarrow> int (start + i))"

fun str_split :: "string \<Rightarrow> char \<Rightarrow> string list" where
  \<comment> \<open>\<^verbatim>\<open>s.split(c)\<close>: every field, the empty ones too; never an empty list.\<close>
  "str_split [] c = [[]]"
| "str_split (x # xs) c =
     (if x = c then [] # str_split xs c
      else (case str_split xs c of [] \<Rightarrow> [[x]] | p # ps \<Rightarrow> (x # p) # ps))"

definition str_split1 :: "string \<Rightarrow> char \<Rightarrow> string list" where
  \<comment> \<open>\<^verbatim>\<open>s.split(c, 1)\<close>: at most one split, at the first \<open>c\<close>.\<close>
  "str_split1 s c =
     (if c \<in> set s then [takeWhile (\<lambda>x. x \<noteq> c) s, tl (dropWhile (\<lambda>x. x \<noteq> c) s)]
      else [s])"

definition str_replace :: "string \<Rightarrow> char \<Rightarrow> char \<Rightarrow> string" where
  "str_replace s a b = map (\<lambda>x. if x = a then b else x) s"

fun str_join :: "string \<Rightarrow> string list \<Rightarrow> string" where
  "str_join sep [] = []"
| "str_join sep [x] = x"
| "str_join sep (x # y # ys) = x @ sep @ str_join sep (y # ys)"

definition is_upper :: "char \<Rightarrow> bool" where
  "is_upper c = (65 \<le> (of_char c :: nat) \<and> (of_char c :: nat) \<le> 90)"

definition is_lower :: "char \<Rightarrow> bool" where
  "is_lower c = (97 \<le> (of_char c :: nat) \<and> (of_char c :: nat) \<le> 122)"

definition is_digit :: "char \<Rightarrow> bool" where
  "is_digit c = (48 \<le> (of_char c :: nat) \<and> (of_char c :: nat) \<le> 57)"

definition str_lower :: "string \<Rightarrow> string" where
  "str_lower s = map (\<lambda>c. if is_upper c then char_of (of_char c + (32::nat)) else c) s"

definition str_capitalize :: "string \<Rightarrow> string" where
  \<comment> \<open>\<^verbatim>\<open>s.capitalize()\<close>: the first byte in upper case, the others in lower case\<close>
  "str_capitalize s =
     (case s of
        [] \<Rightarrow> []
      | c # cs \<Rightarrow> (if is_lower c then char_of (of_char c - (32::nat)) else c) # str_lower cs)"

subsection \<open>\<^verbatim>\<open>urllib.quote\<close>, \<^verbatim>\<open>urllib.quote_plus\<close>, \<^verbatim>\<open>urllib.unquote\<close>, \<^verbatim>\<open>urllib.urlencode\<close>\<close>

definition always_safe :: "char \<Rightarrow> bool" where
  \<comment> \<open>letters, digits and \<^verbatim>\<open>_.-\<close>\<close>
  "always_safe c = (is_upper c \<or> is_lower c \<or> is_digit c \<or> c \<in> set ''_.-'')"

definition hex_digit :: "nat \<Rightarrow> char" where
  "hex_digit n = (if n < 10 then char_of (48 + n) else char_of (55 + n))"

definition quoter :: "string \<Rightarrow> char \<Rightarrow> string" where
  \<comment> \<open>one byte of \<^verbatim>\<open>quote\<close>: itself when safe, else \<^verbatim>\<open>'%%%02X' % ord(c)\<close>\<close>
  "quoter safe c =
     (if always_safe c \<or> c \<in> set safe then [c]
      else [CHR ''%'', hex_digit ((of_char c :: nat) div 16), hex_digit ((of_char c :: nat) mod 16)])"

definition quote :: "string \<Rightarrow> string \<Rightarrow> string" where
  "quote s safe = concat (map (quoter safe) s)"

definition quote_plus :: "string \<Rightarrow> string" where
  \<comment> \<open>\<^verbatim>\<open>quote_plus(s)\<close>, \<^verbatim>\<open>safe=''\<close>\<close>
  "quote_plus s =
     (if CHR '' '' \<in> set s then str_replace (quote s '' '') CHR '' '' CHR ''+''
      else quote s '''')"

definition hex_value :: "char \<Rightarrow> nat option" where
  \<comment> \<open>the digits of \<^verbatim>\<open>_hexdig = '0123456789ABCDEFabcdef'\<close>\<close>
  "hex_value c =
     (let n = (of_char c :: nat) in
      if 48 \<le> n \<and> n \<le> 57 then Some (n - 48)
      else if 65 \<le> n \<and> n \<le> 70 then Some (n - 55)
      else if 97 \<le> n \<and> n \<le> 102 then Some (n - 87)
      else None)"

definition unquote_item :: "string \<Rightarrow> string" where
  \<comment> \<open>what \<^verbatim>\<open>unquote\<close> appends for one field after a \<^verbatim>\<open>%\<close>:
      \<^verbatim>\<open>_hextochr[item[:2]] + item[2:]\<close>, or \<^verbatim>\<open>'%' + item\<close> on KeyError\<close>
  "unquote_item item =
     (case item of
        a # b # rest \<Rightarrow>
          (case (hex_value a, hex_value b) of
             (Some h, Some l) \<Rightarrow> char_of (16 * h + l) # rest
           | _ \<Rightarrow> CHR ''%'' # item)
      | _ \<Rightarrow> CHR ''%'' # item)"

definition unquote :: "string \<Rightarrow> string" where
  "unquote s =
     (case str_split s CHR ''%'' of
        [] \<Rightarrow> s
      | [r] \<Rightarrow> s
      | r # items \<Rightarrow> r @ concat (map unquote_item items))"

definition urlencode :: "(string \<times> string) list \<Rightarrow> string" where
  \<comment> \<open>\<^verbatim>\<open>urlencode(query)\<close> on a sequence of pairs of \<^verbatim>\<open>str\<close>, \<^verbatim>\<open>doseq=0\<close>\<close>
  "urlencode query = str_join ''&'' (map (\<lambda>(k, v). quote_plus k @ ''='' @ quote_plus v) query)"

subsection \<open>\<^verbatim>\<open>urlparse.parse_qsl\<close>, \<^verbatim>\<open>urlparse.urlsplit\<close>, \<^verbatim>\<open>urlparse.urlunsplit\<close>\<close>

definition parse_field :: "bool \<Rightarrow> string \<Rightarrow> (string \<times> string) list" where
  \<comment> \<open>the body of \<^verbatim>\<open>parse_qsl\<close>'s loop for one field, \<^verbatim>\<open>strict_parsing=0\<close>\<close>
  "parse_field keep_blank_values name_value =
     (if name_value = [] then []
      else (case str_split1 name_value CHR ''='' of
              [n, v] \<Rightarrow>
                (if v \<noteq> [] \<or> keep_blank_values
                 then [(unquote (str_replace n CHR ''+'' CHR '' ''),
                        unquote (str_replace v CHR ''+'' CHR '' ''))]
                 else [])
            | [n] \<Rightarrow>
                (if keep_blank_values
                 then [(unquote (str_replace n CHR ''+'' CHR '' ''), [])]
                 else [])
            | _ \<Rightarrow> []))"

definition parse_qsl :: "string \<Rightarrow> bool \<Rightarrow> (string \<times> string) list" where
  \<comment> \<open>\<^verbatim>\<open>parse_qsl(qs, keep_blank_values)\<close>: fields are separated by \<^verbatim>\<open>&\<close> and \<^verbatim>\<open>;\<close>\<close>
  "parse_qsl qs keep_blank_values =
     concat (map (parse_field keep_blank_values)
       (concat (map (\<lambda>s1. str_split s1 CHR '';'') (str_split qs CHR ''&''))))"

datatype error =
    ValueError string
  | TransportError string
  | ParseError string

type_synonym split_result = "string \<times> string \<times> string \<times> string \<times> string"

definition scheme_char :: "char \<Rightarrow> bool" where
  "scheme_char c = (is_upper c \<or> is_lower c \<or> is_digit c \<or> c \<in> set ''+-.'')"

definition splitnetloc :: "string \<Rightarrow> nat \<Rightarrow> string \<times> string" where
  "splitnetloc url start =
     (let delim = foldl (\<lambda>delim c.
                    let wdelim = str_find url c start in
                    if wdelim \<ge> 0 then min delim (nat wdelim) else delim)
                  (length url) ''/?#''
      in (drop start (take delim url), drop delim url))"

definition split_hier :: "string \<Rightarrow> string \<Rightarrow> error + split_result" where
  \<comment> \<open>the part of \<^verbatim>\<open>urlsplit\<close> after the scheme: network location, fragment, query\<close>
  "split_hier scheme url =
     (let (netloc, url1) = (if take 2 url = ''//'' then splitnetloc url 2 else ('''', url)) in
      if take 2 url = ''//'' \<and>
         ((CHR ''['' \<in> set netloc \<and> CHR '']'' \<notin> set netloc) \<or>
          (CHR '']'' \<in> set netloc \<and> CHR ''['' \<notin> set netloc))
      then Inl (ValueError ''Invalid IPv6 URL'')
      else
        let (url2, fragment) =
              (if CHR ''#'' \<in> set url1
               then (case str_split1 url1 CHR ''#'' of [u, f] \<Rightarrow> (u, f) | _ \<Rightarrow> (url1, ''''))
               else (url1, ''''));
            (url3, query) =
              (if CHR ''?'' \<in> set url2
               then (case str_split1 url2 CHR ''?'' of [u, q] \<Rightarrow> (u, q) | _ \<Rightarrow> (url2, ''''))
               else (url2, ''''))
        in Inr (scheme, netloc, url3, query, fragment))"

definition urlsplit :: "string \<Rightarrow> error + split_result" where
  \<comment> \<open>\<^verbatim>\<open>urlsplit(url)\<close>, \<^verbatim>\<open>scheme=''\<close>, \<^verbatim>\<open>allow_fragments=True\<close>\<close>
  "urlsplit url =
     (let i = str_find url CHR '':'' 0 in
      if i > 0 then
        (if take (nat i) url = ''http''
         then split_hier (str_lower (take (nat i) url)) (drop (nat i + 1) url)
         else if list_all scheme_char (take (nat i) url)
         then (let rest = drop (nat i + 1) url in
               if rest = [] \<or> list_ex (\<lambda>c. \<not> is_digit c) rest
               then split_hier (str_lower (take (nat i) url)) rest
               else split_hier '''' url)
         else split_hier '''' url)
      else split_hier '''' url)"

definition uses_netloc :: "string list" where
  "uses_netloc = ['''', ''ftp'', ''http'', ''gopher'', ''nntp'', ''telnet'',
                  ''imap'', ''wais'', ''file'', ''mms'', ''https'', ''shttp'',
                  ''snews'', ''prospero'', ''rtsp'', ''rtspu'', ''rsync'',
                  ''svn'', ''svn+ssh'', ''sftp'', ''nfs'', ''git'', ''git+ssh'',
                  ''ws'', ''wss'']"

definition urlunsplit :: "split_result \<Rightarrow> string" where
  "urlunsplit parts =
     (case parts of (scheme, netloc, url, query, fragment) \<Rightarrow>
        let url1 = (if netloc \<noteq> [] \<or> (scheme \<noteq> [] \<and> scheme \<in> set uses_netloc \<and> take 2 url \<noteq> ''//'')
                    then ''//'' @ netloc @ (if url \<noteq> [] \<and> take 1 url \<noteq> ''/'' then ''/'' @ url else url)
                    else url);
            url2 = (if scheme \<noteq> [] then scheme @ '':'' @ url1 else url1);
            url3 = (if query \<noteq> [] then url2 @ ''?'' @ query else url2);
            url4 = (if fragment \<noteq> [] then url3 @ ''#'' @ fragment else url3)
        in url4)"


subsection \<open>\<^verbatim>\<open>urllib2.Request\<close>\<close>

record Request =
  req_url :: string
  req_data :: "string option"
  req_headers :: "(string \<times> string) list"

datatype http_method = GET | POST

definition Request_new :: "string \<Rightarrow> string option \<Rightarrow> Request" where
  \<comment> \<open>\<^verbatim>\<open>urllib2.Request(url, data)\<close>, no headers yet\<close>
  "Request_new url data = \<lparr>req_url = url, req_data = data, req_headers = []\<rparr>"

definition add_header :: "string \<Rightarrow> string \<Rightarrow> Request \<Rightarrow> Request" where
  \<comment> \<open>\<^verbatim>\<open>request.add_header(key, val)\<close> is \<^verbatim>\<open>self.headers[key.capitalize()] = val\<close>: the
      name is stored capitalised, and the headers are a dict, so a second value for a name
      replaces the first\<close>
  "add_header k v r =
     r\<lparr>req_headers := (str_capitalize k, v) #
                         filter (\<lambda>h. fst h \<noteq> str_capitalize k) (req_headers r)\<rparr>"

definition get_method :: "Request \<Rightarrow> http_method" where
  \<comment> \<open>\<^verbatim>\<open>Request.get_method\<close>: \<^verbatim>\<open>"POST" if self.has_data() else "GET"\<close>,
      where \<^verbatim>\<open>has_data\<close> is \<^verbatim>\<open>self.data is not None\<close>\<close>
  "get_method r = (if req_data r \<noteq> None then POST else GET)"

section \<open>The environment of a client\<close>

text \<open>
  Two collaborators of \<^verbatim>\<open>familysearch.py\<close> are outside it and are parameters of the
  model: what \<^verbatim>\<open>self.opener.open(request)\<close> does (the network, the remote service and
  the cookie processor of the opener), and what
  \<^verbatim>\<open>identity.parse(response).session.id\<close> evaluates to (the \<^verbatim>\<open>enunciate\<close> package).
  Either may raise. A third parameter is the interpreter's: the order in which a
  \<^verbatim>\<open>dict\<close> hands out its items, which Python 2 leaves to the hash of the keys.
\<close>

type_synonym response = string
type_synonym cookiejar = "string list"

record 'n env =
  serve :: "Request \<Rightarrow> cookiejar \<Rightarrow> 'n \<Rightarrow> (error + response) \<times> cookiejar \<times> 'n"
  session_id :: "response \<Rightarrow> error + string"
  dict_order :: "string \<Rightarrow> nat"

text \<open>
  The world outside the client: the state \<open>remote\<close> of the network and the service, and
  the list \<open>sent\<close> of the requests handed to the opener so far, oldest first. \<open>sent\<close> is
  what a mock transport would record; nothing reads it.
\<close>

record 'n world =
  sent :: "Request list"
  remote :: 'n

definition opener_open ::
  "'n env \<Rightarrow> Request \<Rightarrow> cookiejar \<Rightarrow> 'n world \<Rightarrow> (error + response) \<times> cookiejar \<times> 'n world" where
  "opener_open E req jar w =
     (case serve E req jar (remote w) of
        (r, jar', n') \<Rightarrow> (r, jar', \<lparr>sent = sent w @ [req], remote = n'\<rparr>))"

definition dict_items :: "'n env \<Rightarrow> (string \<times> string) list \<Rightarrow> (string \<times> string) list" where
  \<comment> \<open>\<^verbatim>\<open>d.items()\<close> of a dict literal with distinct keys: its items in the interpreter's order\<close>
  "dict_items E d = sort_key (\<lambda>kv. dict_order E (fst kv)) d"

section \<open>\<^verbatim>\<open>familysearch.py\<close>\<close>

definition version :: string where
  "version = ''0.1''"

record FamilySearch =
  agent :: string
  key :: string
  session :: "string option"
  base :: string
  login_url :: string
  initialize_url :: string
  authenticate_url :: string
  opener :: cookiejar

type_synonym ('a, 'n) outcome = "(error + 'a) \<times> FamilySearch \<times> 'n world"

definition add_json_format :: "string \<Rightarrow> error + string" where
  "add_json_format url =
     (case urlsplit url of
        Inl e \<Rightarrow> Inl e
      | Inr (parts0, parts1, parts2, parts3, parts4) \<Rightarrow>
          let query_parts = parse_qsl parts3 False;
              query_parts = query_parts @ [(''dataFormat'', ''application/json'')];
              query = urlencode query_parts
          in Inr (urlunsplit (parts0, parts1, parts2, query, parts4)))"

definition request ::
  "'n env \<Rightarrow> FamilySearch \<Rightarrow> string \<Rightarrow> string option \<Rightarrow> 'n world \<Rightarrow> (response, 'n) outcome" where
  "request E self url data w =
     (case add_json_format url of
        Inl e \<Rightarrow> (Inl e, self, w)
      | Inr url' \<Rightarrow>
          let req = Request_new url' data;
              req = add_header ''User-Agent'' (agent self) req
          in case opener_open E req (opener self) w of
               (r, jar, w') \<Rightarrow> (r, self\<lparr>opener := jar\<rparr>, w'))"

definition login ::
  "'n env \<Rightarrow> FamilySearch \<Rightarrow> string \<Rightarrow> string \<Rightarrow> 'n world \<Rightarrow> (string, 'n) outcome" where
  \<comment> \<open>\<^verbatim>\<open>self.session = identity.parse(self._request(...)).session.id\<close> evaluates its
      right-hand side first, so nothing is assigned when that raises;
      \<^verbatim>\<open>return self.session\<close> then returns what was stored\<close>
  "login E self username password w =
     (let credentials = urlencode (dict_items E
            [(''username'', username), (''password'', password), (''key'', key self)])
      in case request E self (login_url self) (Some credentials) w of
           (Inl e, self, w) \<Rightarrow> (Inl e, self, w)
         | (Inr resp, self, w) \<Rightarrow>
             (case session_id E resp of
                Inl e \<Rightarrow> (Inl e, self, w)
              | Inr sid \<Rightarrow> (Inr sid, self\<lparr>session := Some sid\<rparr>, w)))"

definition initialize :: "'n env \<Rightarrow> FamilySearch \<Rightarrow> 'n world \<Rightarrow> (string, 'n) outcome" where
  "initialize E self w =
     (let key' = urlencode (dict_items E [(''key'', key self)])
      in case request E self (initialize_url self) (Some key') w of
           (Inl e, self, w) \<Rightarrow> (Inl e, self, w)
         | (Inr resp, self, w) \<Rightarrow>
             (case session_id E resp of
                Inl e \<Rightarrow> (Inl e, self, w)
              | Inr sid \<Rightarrow> (Inr sid, self\<lparr>session := Some sid\<rparr>, w)))"

definition authenticate ::
  "'n env \<Rightarrow> FamilySearch \<Rightarrow> string \<Rightarrow> string \<Rightarrow> 'n world \<Rightarrow> (string, 'n) outcome" where
  "authenticate E self username password w =
     (let credentials = urlencode (dict_items E
            [(''username'', username), (''password'', password)])
      in case request E self (authenticate_url self) (Some credentials) w of
           (Inl e, self, w) \<Rightarrow> (Inl e, self, w)
         | (Inr resp, self, w) \<Rightarrow>
             (case session_id E resp of
                Inl e \<Rightarrow> (Inl e, self, w)
              | Inr sid \<Rightarrow> (Inr sid, self\<lparr>session := Some sid\<rparr>, w)))"

definition truthy :: "string option \<Rightarrow> bool" where
  \<comment> \<open>Python's truth value of an argument that is \<^verbatim>\<open>None\<close> or a \<^verbatim>\<open>str\<close>\<close>
  "truthy x = (case x of None \<Rightarrow> False | Some s \<Rightarrow> s \<noteq> [])"

definition default_base :: string where
  "default_base = ''http://www.dev.usys.org''"

definition FamilySearch_init ::
  "'n env \<Rightarrow> string \<Rightarrow> string \<Rightarrow> string option \<Rightarrow> string option \<Rightarrow> string option \<Rightarrow> string
     \<Rightarrow> 'n world \<Rightarrow> (unit, 'n) outcome" where
  \<comment> \<open>\<^verbatim>\<open>__init__(self, agent, key, username, password, session, base)\<close>. The opener is
      built with a cookie processor of its own, whose jar starts empty. An exception of
      \<^verbatim>\<open>login\<close> leaves \<^verbatim>\<open>__init__\<close> as it is; \<^verbatim>\<open>__init__\<close> itself returns nothing.\<close>
  "FamilySearch_init E agent' key' username password session' base' w =
     (let identity_base = base' @ ''/identity/v2/'';
          self = \<lparr>agent = agent' @ '' Python-FS-Stack/'' @ version,
                  key = key',
                  session = session',
                  base = base',
                  login_url = identity_base @ ''login'',
                  initialize_url = identity_base @ ''initialize'',
                  authenticate_url = identity_base @ ''authenticate'',
                  opener = []\<rparr>
      in if truthy username \<and> truthy password
         then (case login E self (the username) (the password) w of
                 (Inl e, self, w) \<Rightarrow> (Inl e, self, w)
               | (Inr sid, self, w) \<Rightarrow> (Inr (), self, w))
         else (Inr (), self, w))"

section \<open>Observing a client\<close>

definition dispatched :: "'n world \<Rightarrow> 'n world \<Rightarrow> Request list" where
  \<comment> \<open>the requests handed to the opener between two states of the world\<close>
  "dispatched w w' = drop (length (sent w)) (sent w')"

text \<open>
  The calls a caller can make on a client once it is constructed: the three public
  methods and the dispatch method \<^verbatim>\<open>_request\<close>. A caller that catches an exception can
  go on calling, so a run does not stop at a failure.
\<close>

datatype call =
    Login string string
  | Initialize
  | Authenticate string string
  | Dispatch string "string option"

fun do_call :: "'n env \<Rightarrow> call \<Rightarrow> FamilySearch \<times> 'n world \<Rightarrow> FamilySearch \<times> 'n world" where
  "do_call E (Login u p) (self, w) = snd (login E self u p w)"
| "do_call E Initialize (self, w) = snd (initialize E self w)"
| "do_call E (Authenticate u p) (self, w) = snd (authenticate E self u p w)"
| "do_call E (Dispatch url data) (self, w) = snd (request E self url data w)"

definition run :: "'n env \<Rightarrow> call list \<Rightarrow> FamilySearch \<times> 'n world \<Rightarrow> FamilySearch \<times> 'n world" where
  "run E cs sw = foldl (\<lambda>sw c. do_call E c sw) sw cs"

abbreviation result_of :: "('a, 'n) outcome \<Rightarrow> error + 'a" where
  "result_of out \<equiv> fst out"

abbreviation client_of :: "('a, 'n) outcome \<Rightarrow> FamilySearch" where
  "client_of out \<equiv> fst (snd out)"

abbreviation world_of :: "('a, 'n) outcome \<Rightarrow> 'n world" where
  "world_of out \<equiv> snd (snd out)"

text \<open>
  The other side of the comparison the specification makes for the constructor: construct
  without a username and a password, then call \<^verbatim>\<open>login\<close>. Like \<open>FamilySearch_init\<close> it
  returns nothing on success.
\<close>

definition construct_then_login ::
  "'n env \<Rightarrow> string \<Rightarrow> string \<Rightarrow> string \<Rightarrow> string \<Rightarrow> string option \<Rightarrow> string
     \<Rightarrow> 'n world \<Rightarrow> (unit, 'n) outcome" where
  "construct_then_login E agent' key' username password session' base' w =
     (case FamilySearch_init E agent' key' None None session' base' w of
        (Inl e, self, w) \<Rightarrow> (Inl e, self, w)
      | (Inr u, self, w) \<Rightarrow>
          (case login E self username password w of
             (Inl e, self, w) \<Rightarrow> (Inl e, self, w)
           | (Inr sid, self, w) \<Rightarrow> (Inr (), self, w)))"

text \<open>
  A mock environment for concrete runs: the service answers every request with the session
  identifier \<^verbatim>\<open>S123\<close> and sets a cookie; the parser hands the body back and raises on an
  empty one.
\<close>

definition mock :: "unit env" where
  "mock = \<lparr>serve = (\<lambda>req jar n. (Inr ''S123'', ''JSESSIONID=S123'' # jar, n)),
            session_id = (\<lambda>resp. if resp = [] then Inl (ParseError ''no session'') else Inr resp),
            dict_order = (\<lambda>k. length k)\<rparr>"

definition world0 :: "unit world" where
  "world0 = \<lparr>sent = [], remote = ()\<rparr>"

section \<open>Auxiliary definitions of the proofs\<close>

text \<open>What the three operations share: the outcome of a dispatch, then the parser.\<close>

definition parsed :: "'n env \<Rightarrow> (response, 'n) outcome \<Rightarrow> (string, 'n) outcome" where
  "parsed E out =
     (case out of
        (Inl e, self, w) \<Rightarrow> (Inl e, self, w)
      | (Inr resp, self, w) \<Rightarrow>
          (case session_id E resp of
             Inl e \<Rightarrow> (Inl e, self, w)
           | Inr sid \<Rightarrow> (Inr sid, self\<lparr>session := Some sid\<rparr>, w)))"

definition reserved :: "char \<Rightarrow> bool" where
  \<comment> \<open>the bytes with a meaning in an encoded query\<close>
  "reserved c = (c \<in> set ''%+&;= '')"

definition plus_quoter :: "char \<Rightarrow> string" where
  \<comment> \<open>one byte of \<open>quote_plus\<close>\<close>
  "plus_quoter c = (if c = CHR '' '' then ''+'' else quoter '''' c)"

definition space_quoter :: "char \<Rightarrow> string" where
  \<comment> \<open>one byte of \<open>quote_plus\<close>, its \<^verbatim>\<open>+\<close> turned back into a space\<close>
  "space_quoter c = (if c = CHR '' '' then '' '' else quoter '''' c)"

definition decode :: "string list \<Rightarrow> string" where
  \<comment> \<open>\<open>unquote\<close> on the fields between the \<^verbatim>\<open>%\<close> signs\<close>
  "decode fs = hd fs @ concat (map unquote_item (tl fs))"

definition encode_pair :: "string \<times> string \<Rightarrow> string" where
  \<comment> \<open>one field of \<open>urlencode\<close>\<close>
  "encode_pair kv = quote_plus (fst kv) @ ''='' @ quote_plus (snd kv)"

definition carries :: "string \<Rightarrow> Request \<Rightarrow> bool" where
  \<comment> \<open>the headers of the request are the \<^verbatim>\<open>User-Agent\<close> header with this value, under
      the name \<^verbatim>\<open>add_header\<close> stores it by\<close>
  "carries ua r = (req_headers r = [(''User-agent'', ua)])"

section \<open>Quoting and unquoting\<close>

lemma of_char_hex_digit:
  "n < 16 \<Longrightarrow> (of_char (hex_digit n) :: nat) = (if n < 10 then 48 + n else 55 + n)"
  by (simp add: hex_digit_def)

lemma hex_value_hex_digit: "n < 16 \<Longrightarrow> hex_value (hex_digit n) = Some n"
  by (auto simp: hex_value_def hex_digit_def Let_def)

lemma hex_digit_not_reserved: "n < 16 \<Longrightarrow> \<not> reserved (hex_digit n)"
proof
  assume n: "n < 16" and r: "reserved (hex_digit n)"
  from r have "(of_char (hex_digit n) :: nat) \<in> {37, 43, 38, 59, 61, 32}"
    by (auto simp: reserved_def)
  with n show False
    by (auto simp: of_char_hex_digit split: if_splits)
qed

lemma always_safe_not_reserved: "always_safe c \<Longrightarrow> \<not> reserved c"
  by (auto simp: always_safe_def reserved_def is_upper_def is_lower_def is_digit_def)

lemma hex_value_not_percent: "hex_value a = Some h \<Longrightarrow> a \<noteq> CHR ''%''"
  by (auto simp: hex_value_def Let_def)

lemma of_char_div_16: "(of_char (c::char) :: nat) div 16 < 16"
proof -
  have "(of_char c :: nat) < 16 * 16" by simp
  then show ?thesis by (rule less_mult_imp_div_less)
qed

lemma quoter_space: "str_replace (quoter '' '' c) CHR '' '' CHR ''+'' = plus_quoter c"
proof (cases "c = CHR '' ''")
  case True
  then show ?thesis by (simp add: quoter_def plus_quoter_def str_replace_def)
next
  case False
  have h: "hex_digit ((of_char c :: nat) div 16) \<noteq> CHR '' ''" "hex_digit ((of_char c :: nat) mod 16) \<noteq> CHR '' ''"
    using hex_digit_not_reserved [of "(of_char c :: nat) div 16"]
          hex_digit_not_reserved [of "(of_char c :: nat) mod 16"] of_char_div_16 [of c]
    by (auto simp: reserved_def)
  from False h show ?thesis
    by (simp add: quoter_def plus_quoter_def str_replace_def)
qed

lemma str_replace_concat:
  "str_replace (concat xss) a b = concat (map (\<lambda>xs. str_replace xs a b) xss)"
  by (simp add: str_replace_def map_concat)

lemma quote_plus_eq: "quote_plus s = concat (map plus_quoter s)"
proof (cases "CHR '' '' \<in> set s")
  case True
  then show ?thesis
    by (simp add: quote_plus_def quote_def str_replace_concat comp_def quoter_space)
next
  case False
  then have "map (quoter '''') s = map plus_quoter s"
    by (intro map_cong) (auto simp: plus_quoter_def)
  then have "quote s '''' = concat (map plus_quoter s)"
    by (simp only: quote_def)
  with False show ?thesis by (simp only: quote_plus_def if_False)
qed

lemma plus_quoter_space: "str_replace (plus_quoter c) CHR ''+'' CHR '' '' = space_quoter c"
proof (cases "c = CHR '' ''")
  case True
  then show ?thesis by (simp add: space_quoter_def plus_quoter_def str_replace_def)
next
  case False
  have h: "hex_digit ((of_char c :: nat) div 16) \<noteq> CHR ''+''" "hex_digit ((of_char c :: nat) mod 16) \<noteq> CHR ''+''"
    using hex_digit_not_reserved [of "(of_char c :: nat) div 16"]
          hex_digit_not_reserved [of "(of_char c :: nat) mod 16"] of_char_div_16 [of c]
    by (auto simp: reserved_def)
  have s: "always_safe c \<Longrightarrow> c \<noteq> CHR ''+''"
    using always_safe_not_reserved [of c] by (auto simp: reserved_def)
  from False h s show ?thesis
    by (auto simp add: quoter_def plus_quoter_def space_quoter_def str_replace_def)
qed

lemma unplus_quote_plus:
  "str_replace (quote_plus s) CHR ''+'' CHR '' '' = concat (map space_quoter s)"
  by (simp add: quote_plus_eq str_replace_concat comp_def plus_quoter_space)

lemma str_split_not_Nil: "str_split s c \<noteq> []"
  by (induction s) (auto split: list.splits)

lemma str_split_plain: "x \<noteq> c \<Longrightarrow> str_split (x # xs) c = (x # hd (str_split xs c)) # tl (str_split xs c)"
  using str_split_not_Nil [of xs c] by (auto split: list.splits)

lemma str_split_sep: "str_split (c # xs) c = [] # str_split xs c"
  by simp

lemma str_split_none: "c \<notin> set s \<Longrightarrow> str_split s c = [s]"
  by (induction s) (auto split: list.splits)

lemma unquote_decode: "unquote s = decode (str_split s CHR ''%'')"
proof (cases "CHR ''%'' \<in> set s")
  case False
  then show ?thesis by (simp add: unquote_def decode_def str_split_none)
next
  case True
  obtain r items where ri: "str_split s CHR ''%'' = r # items"
    using str_split_not_Nil [of s "CHR ''%''"] by (cases "str_split s CHR ''%''") auto
  show ?thesis
  proof (cases items)
    case Nil
    have "\<And>r. str_split s CHR ''%'' = [r] \<Longrightarrow> r = s"
      by (induction s) (auto split: list.splits if_splits simp: str_split_not_Nil)
    with ri Nil show ?thesis by (simp add: unquote_def decode_def)
  next
    case (Cons i items')
    with ri show ?thesis by (simp add: unquote_def decode_def)
  qed
qed

lemma unquote_Nil: "unquote [] = []"
  by (simp add: unquote_decode decode_def)

lemma unquote_plain: "x \<noteq> CHR ''%'' \<Longrightarrow> unquote (x # xs) = x # unquote xs"
  by (simp add: unquote_decode decode_def str_split_plain del: str_split.simps)

lemma unquote_escape:
  assumes "hex_value a = Some h" "hex_value b = Some l"
  shows "unquote (CHR ''%'' # a # b # xs) = char_of (16 * h + l) # unquote xs"
proof -
  from assms have ab: "a \<noteq> CHR ''%''" "b \<noteq> CHR ''%''"
    by (auto dest: hex_value_not_percent)
  then show ?thesis using assms
    by (simp add: unquote_decode decode_def str_split_plain str_split_sep unquote_item_def
          del: str_split.simps)
qed

lemma unquote_space_quoter: "unquote (space_quoter c @ xs) = c # unquote xs"
proof (cases "c = CHR '' '' \<or> always_safe c")
  case True
  then have "c \<noteq> CHR ''%''" using always_safe_not_reserved [of c] by (auto simp: reserved_def)
  with True show ?thesis by (auto simp: space_quoter_def quoter_def unquote_plain)
next
  case False
  then have "space_quoter c = [CHR ''%'', hex_digit ((of_char c :: nat) div 16), hex_digit ((of_char c :: nat) mod 16)]"
    by (simp add: space_quoter_def quoter_def)
  then show ?thesis
    using unquote_escape [of "hex_digit ((of_char c :: nat) div 16)" "(of_char c :: nat) div 16"
             "hex_digit ((of_char c :: nat) mod 16)" "(of_char c :: nat) mod 16" xs]
    by (simp add: hex_value_hex_digit of_char_div_16)
qed

lemma unquote_concat_space_quoter: "unquote (concat (map space_quoter s)) = s"
  by (induction s) (simp_all add: unquote_Nil unquote_space_quoter)

lemma unquote_plus_quote_plus:
  "unquote (str_replace (quote_plus s) CHR ''+'' CHR '' '') = s"
  by (simp add: unplus_quote_plus unquote_concat_space_quoter)


lemma plus_quoter_chars: "c' \<in> set (plus_quoter c) \<Longrightarrow> c' \<notin> set ''&;=''"
proof -
  assume m: "c' \<in> set (plus_quoter c)"
  have h: "\<not> reserved (hex_digit ((of_char c :: nat) div 16))"
          "\<not> reserved (hex_digit ((of_char c :: nat) mod 16))"
    using of_char_div_16 [of c] by (simp_all add: hex_digit_not_reserved)
  have s: "always_safe c \<Longrightarrow> \<not> reserved c" by (rule always_safe_not_reserved)
  from m h s show ?thesis
    by (auto simp: plus_quoter_def quoter_def reserved_def split: if_splits)
qed

lemma quote_plus_chars: "c \<in> set (quote_plus s) \<Longrightarrow> c \<notin> set ''&;=''"
  unfolding quote_plus_eq using plus_quoter_chars by fastforce

lemma quote_plus_Nil_iff: "quote_plus s = [] \<longleftrightarrow> s = []"
  by (cases s) (auto simp: quote_plus_eq plus_quoter_def quoter_def)

lemma str_split1_at:
  "c \<notin> set xs \<Longrightarrow> str_split1 (xs @ c # ys) c = [xs, ys]"
proof -
  assume n: "c \<notin> set xs"
  then have "takeWhile (\<lambda>x. x \<noteq> c) (xs @ c # ys) = xs"
    by (induction xs) auto
  moreover from n have "dropWhile (\<lambda>x. x \<noteq> c) (xs @ c # ys) = c # ys"
    by (induction xs) auto
  ultimately show ?thesis by (simp add: str_split1_def)
qed

lemma parse_field_encoded:
  "parse_field kb (quote_plus k @ ''='' @ quote_plus v) =
     (if v \<noteq> [] \<or> kb then [(k, v)] else [])"
proof -
  have "CHR ''='' \<notin> set (quote_plus k)" using quote_plus_chars [of "CHR ''=''" k] by auto
  then have "str_split1 (quote_plus k @ ''='' @ quote_plus v) CHR ''='' = [quote_plus k, quote_plus v]"
    using str_split1_at [of "CHR ''=''" "quote_plus k" "quote_plus v"] by simp
  then show ?thesis
    by (simp add: parse_field_def unquote_plus_quote_plus quote_plus_Nil_iff)
qed

lemma str_split_at:
  "c \<notin> set xs \<Longrightarrow> str_split (xs @ c # ys) c = xs # str_split ys c"
  by (induction xs) auto

lemma str_split_join:
  "fs \<noteq> [] \<Longrightarrow> (\<And>f. f \<in> set fs \<Longrightarrow> c \<notin> set f) \<Longrightarrow> str_split (str_join [c] fs) c = fs"
proof (induction "[c]" fs rule: str_join.induct)
  case 1
  then show ?case by simp
next
  case (2 x)
  then show ?case by (simp add: str_split_none)
next
  case (3 x y ys)
  then show ?case by (simp add: str_split_at del: str_split.simps)
qed

lemma urlencode_eq: "urlencode ps = str_join ''&'' (map encode_pair ps)"
proof -
  have "(\<lambda>(k, v). quote_plus k @ ''='' @ quote_plus v) = encode_pair"
    by (rule ext) (simp add: encode_pair_def case_prod_beta)
  then show ?thesis by (simp only: urlencode_def)
qed

lemma encode_pair_chars: "c \<in> set ''&;'' \<Longrightarrow> c \<notin> set (encode_pair kv)"
  using quote_plus_chars [of c "fst kv"] quote_plus_chars [of c "snd kv"]
  by (auto simp: encode_pair_def)

lemma parse_field_encode_pair:
  "parse_field kb (encode_pair kv) = (if snd kv \<noteq> [] \<or> kb then [kv] else [])"
  by (simp add: encode_pair_def parse_field_encoded del: append.simps)

lemma parse_qsl_urlencode:
  "parse_qsl (urlencode ps) kb = filter (\<lambda>kv. snd kv \<noteq> [] \<or> kb) ps"
proof (cases ps)
  case Nil
  then show ?thesis by (simp add: parse_qsl_def urlencode_def parse_field_def)
next
  case (Cons a as)
  let ?fs = "map encode_pair ps"
  have amp: "str_split (str_join ''&'' ?fs) CHR ''&'' = ?fs"
    using Cons by (intro str_split_join) (auto simp: encode_pair_chars)
  have semi: "concat (map (\<lambda>s1. str_split s1 CHR '';'') ?fs) = ?fs"
    by (induction ps) (simp_all add: str_split_none encode_pair_chars)
  have "concat (map (parse_field kb) ?fs) = filter (\<lambda>kv. snd kv \<noteq> [] \<or> kb) ps"
    by (induction ps) (simp_all add: parse_field_encode_pair)
  with amp semi show ?thesis by (simp add: parse_qsl_def urlencode_eq)
qed

lemma unquote_item_not_Nil: "unquote_item item \<noteq> []"
  by (simp add: unquote_item_def split: list.splits option.splits)

lemma unquote_not_Nil: "s \<noteq> [] \<Longrightarrow> unquote s \<noteq> []"
proof (cases s)
  case Nil
  assume "s \<noteq> []"
  with Nil show ?thesis by simp
next
  case (Cons c cs)
  show ?thesis
  proof (cases "c = CHR ''%''")
    case False
    with Cons show ?thesis by (simp add: unquote_plain)
  next
    case True
    obtain f fs where f: "str_split cs CHR ''%'' = f # fs"
      using str_split_not_Nil [of cs "CHR ''%''"] by (cases "str_split cs CHR ''%''") auto
    with True Cons show ?thesis
      by (simp add: unquote_decode decode_def str_split_sep unquote_item_not_Nil
            del: str_split.simps)
  qed
qed

lemma str_replace_Nil_iff: "str_replace s a b = [] \<longleftrightarrow> s = []"
  by (simp add: str_replace_def)

lemma parse_field_values: "kv \<in> set (parse_field False f) \<Longrightarrow> snd kv \<noteq> []"
  by (auto simp: parse_field_def unquote_not_Nil str_replace_Nil_iff
        split: if_splits list.splits)

lemma parse_qsl_values: "kv \<in> set (parse_qsl q False) \<Longrightarrow> snd kv \<noteq> []"
  by (auto simp: parse_qsl_def dest: parse_field_values)

lemma reencoded_query_parses_back:
  "parse_qsl (urlencode (parse_qsl q False @ [(''dataFormat'', ''application/json'')])) False =
     parse_qsl q False @ [(''dataFormat'', ''application/json'')]"
proof -
  have "filter (\<lambda>kv. snd kv \<noteq> []) (parse_qsl q False) = parse_qsl q False"
    by (rule filter_True) (simp add: parse_qsl_values)
  then show ?thesis by (simp add: parse_qsl_urlencode)
qed


section \<open>What a dispatch and the three operations do\<close>

lemma capitalize_User_Agent: "str_capitalize ''User-Agent'' = ''User-agent''"
  by code_simp

lemma request_sent:
  "sent (world_of (request E self url data w)) =
     sent w @ (case add_json_format url of
                 Inl e \<Rightarrow> []
               | Inr u \<Rightarrow> [\<lparr>req_url = u, req_data = data,
                             req_headers = [(''User-agent'', agent self)]\<rparr>])"
  by (simp add: request_def opener_open_def Request_new_def add_header_def Let_def
           capitalize_User_Agent
           split: sum.splits prod.splits)


lemma request_client:
  "client_of (request E self url data w) =
     self\<lparr>opener := opener (client_of (request E self url data w))\<rparr>"
  by (simp add: request_def opener_open_def Let_def split: sum.splits prod.splits)

lemma dispatched_request:
  "dispatched w (world_of (request E self url data w)) =
     (case add_json_format url of
        Inl e \<Rightarrow> []
      | Inr u \<Rightarrow> [\<lparr>req_url = u, req_data = data,
                    req_headers = [(''User-agent'', agent self)]\<rparr>])"
  by (simp add: dispatched_def request_sent)

lemma login_parsed:
  "login E self u p w =
     parsed E (request E self (login_url self)
       (Some (urlencode (dict_items E [(''username'', u), (''password'', p), (''key'', key self)]))) w)"
  by (simp add: login_def parsed_def Let_def split: sum.splits prod.splits)

lemma initialize_parsed:
  "initialize E self w =
     parsed E (request E self (initialize_url self)
       (Some (urlencode (dict_items E [(''key'', key self)]))) w)"
  by (simp add: initialize_def parsed_def Let_def split: sum.splits prod.splits)

lemma authenticate_parsed:
  "authenticate E self u p w =
     parsed E (request E self (authenticate_url self)
       (Some (urlencode (dict_items E [(''username'', u), (''password'', p)]))) w)"
  by (simp add: authenticate_def parsed_def Let_def split: sum.splits prod.splits)

lemma parsed_world: "world_of (parsed E out) = world_of out"
  by (simp add: parsed_def split: sum.splits prod.splits)

lemma parsed_result:
  "result_of (parsed E out) = (case result_of out of Inl e \<Rightarrow> Inl e | Inr resp \<Rightarrow> session_id E resp)"
  by (simp add: parsed_def split: sum.splits prod.splits)

lemma parsed_client:
  "client_of (parsed E out) =
     (case result_of (parsed E out) of
        Inl e \<Rightarrow> client_of out
      | Inr sid \<Rightarrow> (client_of out)\<lparr>session := Some sid\<rparr>)"
  by (simp add: parsed_def split: sum.splits prod.splits)

lemma parsed_session:
  "session (client_of (parsed E out)) =
     (case result_of (parsed E out) of
        Inl e \<Rightarrow> session (client_of out)
      | Inr sid \<Rightarrow> Some sid)"
  by (simp add: parsed_def split: sum.splits prod.splits)

lemma request_session: "session (client_of (request E self url data w)) = session self"
  by (subst request_client) simp

lemma parsed_frame:
  "agent (client_of (parsed E out)) = agent (client_of out)"
  "key (client_of (parsed E out)) = key (client_of out)"
  "base (client_of (parsed E out)) = base (client_of out)"
  "login_url (client_of (parsed E out)) = login_url (client_of out)"
  "initialize_url (client_of (parsed E out)) = initialize_url (client_of out)"
  "authenticate_url (client_of (parsed E out)) = authenticate_url (client_of out)"
  "opener (client_of (parsed E out)) = opener (client_of out)"
  by (simp_all add: parsed_def split: sum.splits prod.splits)

lemma request_frame:
  "agent (client_of (request E self url data w)) = agent self"
  "key (client_of (request E self url data w)) = key self"
  "base (client_of (request E self url data w)) = base self"
  "login_url (client_of (request E self url data w)) = login_url self"
  "initialize_url (client_of (request E self url data w)) = initialize_url self"
  "authenticate_url (client_of (request E self url data w)) = authenticate_url self"
  "session (client_of (request E self url data w)) = session self"
  by (subst request_client, simp)+

lemma init_no_login:
  "\<not> (truthy u \<and> truthy p) \<Longrightarrow>
   FamilySearch_init E a k u p s b w =
     (Inr (),
      \<lparr>agent = a @ '' Python-FS-Stack/0.1'', key = k, session = s, base = b,
        login_url = b @ ''/identity/v2/login'',
        initialize_url = b @ ''/identity/v2/initialize'',
        authenticate_url = b @ ''/identity/v2/authenticate'',
        opener = []\<rparr>, w)"
  by (cases "truthy u"; cases "truthy p"; simp add: FamilySearch_init_def Let_def version_def)

lemma init_login:
  "truthy (Some u) \<Longrightarrow> truthy (Some p) \<Longrightarrow>
   FamilySearch_init E a k (Some u) (Some p) s b w =
     (case login E \<lparr>agent = a @ '' Python-FS-Stack/0.1'', key = k, session = s, base = b,
        login_url = b @ ''/identity/v2/login'',
        initialize_url = b @ ''/identity/v2/initialize'',
        authenticate_url = b @ ''/identity/v2/authenticate'',
        opener = []\<rparr> u p w of
        (Inl e, self, w) \<Rightarrow> (Inl e, self, w)
      | (Inr sid, self, w) \<Rightarrow> (Inr (), self, w))"
  by (simp add: FamilySearch_init_def Let_def version_def)

lemma outcome_unit_client:
  "client_of (case out of (Inl e, self, w) \<Rightarrow> (Inl e, self, w)
                        | (Inr sid, self, w) \<Rightarrow> (Inr (), self, w)) = client_of out"
  "world_of (case out of (Inl e, self, w) \<Rightarrow> (Inl e, self, w)
                        | (Inr sid, self, w) \<Rightarrow> (Inr (), self, w)) = world_of out"
  by (simp_all split: prod.splits sum.splits)

lemma login_frame:
  "agent (client_of (login E self u p w)) = agent self"
  "key (client_of (login E self u p w)) = key self"
  "base (client_of (login E self u p w)) = base self"
  "login_url (client_of (login E self u p w)) = login_url self"
  "initialize_url (client_of (login E self u p w)) = initialize_url self"
  "authenticate_url (client_of (login E self u p w)) = authenticate_url self"
  by (simp_all add: login_parsed parsed_frame request_frame)

lemma initialize_frame:
  "agent (client_of (initialize E self w)) = agent self"
  "key (client_of (initialize E self w)) = key self"
  "base (client_of (initialize E self w)) = base self"
  "login_url (client_of (initialize E self w)) = login_url self"
  "initialize_url (client_of (initialize E self w)) = initialize_url self"
  "authenticate_url (client_of (initialize E self w)) = authenticate_url self"
  by (simp_all add: initialize_parsed parsed_frame request_frame)

lemma authenticate_frame:
  "agent (client_of (authenticate E self u p w)) = agent self"
  "key (client_of (authenticate E self u p w)) = key self"
  "base (client_of (authenticate E self u p w)) = base self"
  "login_url (client_of (authenticate E self u p w)) = login_url self"
  "initialize_url (client_of (authenticate E self u p w)) = initialize_url self"
  "authenticate_url (client_of (authenticate E self u p w)) = authenticate_url self"
  by (simp_all add: authenticate_parsed parsed_frame request_frame)

lemma init_client:
  "client_of (FamilySearch_init E a k u p s b w) =
     (let self = \<lparr>agent = a @ '' Python-FS-Stack/0.1'', key = k, session = s, base = b,
                     login_url = b @ ''/identity/v2/login'',
                     initialize_url = b @ ''/identity/v2/initialize'',
                     authenticate_url = b @ ''/identity/v2/authenticate'',
                     opener = []\<rparr>
      in if truthy u \<and> truthy p then client_of (login E self (the u) (the p) w) else self)"
  "world_of (FamilySearch_init E a k u p s b w) =
     (let self = \<lparr>agent = a @ '' Python-FS-Stack/0.1'', key = k, session = s, base = b,
                     login_url = b @ ''/identity/v2/login'',
                     initialize_url = b @ ''/identity/v2/initialize'',
                     authenticate_url = b @ ''/identity/v2/authenticate'',
                     opener = []\<rparr>
      in if truthy u \<and> truthy p then world_of (login E self (the u) (the p) w) else w)"
  by (simp_all add: FamilySearch_init_def Let_def version_def outcome_unit_client)



lemma dispatched_login:
  "dispatched w (world_of (login E self u p w)) =
     (case add_json_format (login_url self) of
        Inl e \<Rightarrow> []
      | Inr url \<Rightarrow>
          [\<lparr>req_url = url,
            req_data = Some (urlencode (dict_items E
               [(''username'', u), (''password'', p), (''key'', key self)])),
            req_headers = [(''User-agent'', agent self)]\<rparr>])"
  by (simp add: login_parsed parsed_world dispatched_request)



lemma sent_request:
  "\<exists>new. sent (world_of (request E self url data w)) = sent w @ new
         \<and> list_all (carries (agent self)) new"
  by (simp add: request_sent carries_def split: sum.splits)

lemma sent_do_call:
  "\<exists>new. sent (snd (do_call E c (self, w))) = sent w @ new
         \<and> list_all (carries (agent self)) new"
proof (cases c)
  case (Login u p)
  then show ?thesis using sent_request [of E self] by (simp add: login_parsed parsed_world)
next
  case Initialize
  then show ?thesis using sent_request [of E self] by (simp add: initialize_parsed parsed_world)
next
  case (Authenticate u p)
  then show ?thesis using sent_request [of E self] by (simp add: authenticate_parsed parsed_world)
next
  case (Dispatch url data)
  then show ?thesis using sent_request [of E self] by simp
qed

lemma agent_do_call: "agent (fst (do_call E c (self, w))) = agent self"
  by (cases c) (simp_all add: login_frame initialize_frame authenticate_frame request_frame)

lemma run_agent_sent:
  "agent (fst (run E cs (self, w))) = agent self
   \<and> (\<exists>new. sent (snd (run E cs (self, w))) = sent w @ new
             \<and> list_all (carries (agent self)) new)"
proof (induction cs arbitrary: self w)
  case Nil
  then show ?case by (simp add: run_def)
next
  case (Cons c cs)
  obtain self1 w1 where s1: "do_call E c (self, w) = (self1, w1)"
    by (cases "do_call E c (self, w)")
  have a1: "agent self1 = agent self" using agent_do_call [of E c self w] s1 by simp
  obtain new1 where n1: "sent w1 = sent w @ new1" "list_all (carries (agent self)) new1"
    using sent_do_call [of E c self w] s1 by auto
  obtain new2 where n2: "sent (snd (run E cs (self1, w1))) = sent w1 @ new2"
      "list_all (carries (agent self1)) new2"
    using Cons.IH [of self1 w1] by auto
  have r: "run E (c # cs) (self, w) = run E cs (self1, w1)"
    by (simp add: run_def s1)
  have "sent (snd (run E (c # cs) (self, w))) = sent w @ (new1 @ new2)"
    using r n1 n2 by simp
  moreover have "list_all (carries (agent self)) (new1 @ new2)"
    using n1 n2 a1 by simp
  moreover have "agent (fst (run E (c # cs) (self, w))) = agent self"
    using r a1 Cons.IH [of self1 w1] by simp
  ultimately show ?case by blast
qed

lemma init_agent_sent:
  "agent (client_of (FamilySearch_init E a k u p s b w)) = a @ '' Python-FS-Stack/0.1''
   \<and> (\<exists>new. sent (world_of (FamilySearch_init E a k u p s b w)) = sent w @ new
             \<and> list_all (carries (a @ '' Python-FS-Stack/0.1'')) new)"
proof (cases "truthy u \<and> truthy p")
  case False
  then show ?thesis by (simp add: init_no_login)
next
  case True
  let ?self = "\<lparr>agent = a @ '' Python-FS-Stack/0.1'', key = k, session = s, base = b,
                     login_url = b @ ''/identity/v2/login'',
                     initialize_url = b @ ''/identity/v2/initialize'',
                     authenticate_url = b @ ''/identity/v2/authenticate'',
                     opener = []\<rparr>"
  from True have "agent (client_of (FamilySearch_init E a k u p s b w)) = a @ '' Python-FS-Stack/0.1''"
    by (simp add: init_client Let_def login_frame)
  moreover from True have "\<exists>new. sent (world_of (FamilySearch_init E a k u p s b w)) = sent w @ new
             \<and> list_all (carries (a @ '' Python-FS-Stack/0.1'')) new"
    using sent_request [of E ?self]
    by (simp add: init_client Let_def login_parsed parsed_world)
  ultimately show ?thesis by simp
qed


section \<open>Claims\<close>

subsection \<open>C1: what \<open>add_json_format\<close> does to the query\<close>

text \<open>
  Claim C1 says that the rewritten URL keeps every key-value pair of the original query, in
  order, before the appended pair \<^verbatim>\<open>dataFormat=application/json\<close>. The code parses the
  query with \<^verbatim>\<open>parse_qsl\<close> at its defaults, which drop every pair whose value is empty, so
  such a pair is missing from the URL that is sent. The theorem evaluates the code on a
  URL whose query is \<^verbatim>\<open>names=&events=all\<close>: the result has lost \<^verbatim>\<open>names=\<close>.
\<close>

theorem add_json_format_drops_blank_value:
  "add_json_format ''http://www.dev.usys.org/familytree/v2/person?names=&events=all'' =
     Inr ''http://www.dev.usys.org/familytree/v2/person?events=all&dataFormat=application%2Fjson''"
  by code_simp

text \<open>
  What the code does keep is the list of pairs that \<^verbatim>\<open>parse_qsl\<close> reads from the original
  query: lemma \<open>reencoded_query_parses_back\<close> shows that the query it writes reads back as
  that list followed by the appended pair. The scheme, network location, path and
  fragment that \<^verbatim>\<open>urlsplit\<close> found are handed to \<^verbatim>\<open>urlunsplit\<close> as they are.
\<close>

subsection \<open>C2: a session is stored on success and kept on failure\<close>

text \<open>
  Claim C2. For \<open>login\<close>, \<open>initialize\<close> and \<open>authenticate\<close>, from every state of the
  client and of the world: the operation raises exactly when its dispatch raises or when
  the parser raises on the response, with that error; when it succeeds it returns the
  session identifier parsed from the response and the session field holds that same
  identifier; when it raises, the session field is the one stored before the call.
\<close>

theorem session_stored_or_unchanged:
  "result_of (login E self u p w) =
     (case result_of (request E self (login_url self)
             (Some (urlencode (dict_items E
                [(''username'', u), (''password'', p), (''key'', key self)]))) w) of
        Inl e \<Rightarrow> Inl e | Inr resp \<Rightarrow> session_id E resp)
   \<and> session (client_of (login E self u p w)) =
     (case result_of (login E self u p w) of Inl e \<Rightarrow> session self | Inr sid \<Rightarrow> Some sid)
   \<and> result_of (initialize E self w) =
     (case result_of (request E self (initialize_url self)
             (Some (urlencode (dict_items E [(''key'', key self)]))) w) of
        Inl e \<Rightarrow> Inl e | Inr resp \<Rightarrow> session_id E resp)
   \<and> session (client_of (initialize E self w)) =
     (case result_of (initialize E self w) of Inl e \<Rightarrow> session self | Inr sid \<Rightarrow> Some sid)
   \<and> result_of (authenticate E self u p w) =
     (case result_of (request E self (authenticate_url self)
             (Some (urlencode (dict_items E [(''username'', u), (''password'', p)]))) w) of
        Inl e \<Rightarrow> Inl e | Inr resp \<Rightarrow> session_id E resp)
   \<and> session (client_of (authenticate E self u p w)) =
     (case result_of (authenticate E self u p w) of Inl e \<Rightarrow> session self | Inr sid \<Rightarrow> Some sid)"
  by (simp add: login_parsed initialize_parsed authenticate_parsed parsed_session parsed_result
        request_frame cong: sum.case_cong)

subsection \<open>C3: constructing with credentials against constructing and logging in\<close>

text \<open>
  Claim C3, amended. For every agent, key, session and base, and every username and
  password that are both non-empty, constructing the client with the username and the
  password is constructing it without them and then calling \<open>login\<close> with them: the same
  error or success, the same client state (session and cookies included) and the same
  requests sent.
\<close>

theorem constructor_is_login_nonempty:
  "u \<noteq> [] \<Longrightarrow> p \<noteq> [] \<Longrightarrow>
   FamilySearch_init E a k (Some u) (Some p) s b w = construct_then_login E a k u p s b w"
  by (simp add: init_login init_no_login construct_then_login_def truthy_def)

theorem constructor_is_login_nonempty_witness:
  "''alice'' \<noteq> [] \<and> ''secret'' \<noteq> [] \<and>
   FamilySearch_init mock ''ClientApp/1.0'' ''developer_key'' (Some ''alice'') (Some ''secret'') None
       default_base world0 =
     construct_then_login mock ''ClientApp/1.0'' ''developer_key'' ''alice'' ''secret'' None
       default_base world0
   \<and> session (client_of (FamilySearch_init mock ''ClientApp/1.0'' ''developer_key''
         (Some ''alice'') (Some ''secret'') None default_base world0)) = Some ''S123''"
proof -
  have n: "''alice'' \<noteq> []" "''secret'' \<noteq> []" by simp_all
  have s: "session (client_of (construct_then_login mock ''ClientApp/1.0'' ''developer_key''
         ''alice'' ''secret'' None default_base world0)) = Some ''S123''"
    by code_simp
  show ?thesis
    using n s constructor_is_login_nonempty [OF n, of mock "''ClientApp/1.0''" "''developer_key''" None default_base world0]
    by simp
qed

text \<open>
  As the claim states it, for every username and password, it fails: the constructor tests
  the truth value of both (\<^verbatim>\<open>if username and password\<close>), so with an empty username it
  does not log in and sends nothing, while \<open>login\<close> called with the same arguments sends
  the request and stores the session the service answers with.
\<close>

theorem constructor_empty_username_counterexample:
  "session (client_of (FamilySearch_init mock ''ClientApp/1.0'' ''developer_key''
       (Some '''') (Some ''secret'') None default_base world0)) = None
   \<and> sent (world_of (FamilySearch_init mock ''ClientApp/1.0'' ''developer_key''
       (Some '''') (Some ''secret'') None default_base world0)) = []
   \<and> session (client_of (construct_then_login mock ''ClientApp/1.0'' ''developer_key''
       '''' ''secret'' None default_base world0)) = Some ''S123''
   \<and> length (sent (world_of (construct_then_login mock ''ClientApp/1.0'' ''developer_key''
       '''' ''secret'' None default_base world0))) = 1"
  by code_simp

subsection \<open>C4: GET without a body, POST with one\<close>


subsection \<open>C5: the endpoint URLs\<close>

text \<open>
  Claim C5. For every base URL \<open>b\<close> given to the constructor, and whatever its other
  arguments are and whether or not its login succeeds, the three endpoint URLs of the
  client are \<open>b\<close> followed by \<^verbatim>\<open>/identity/v2/login\<close>, \<^verbatim>\<open>/identity/v2/initialize\<close> and
  \<^verbatim>\<open>/identity/v2/authenticate\<close>.
\<close>

theorem endpoints_from_base:
  "login_url (client_of (FamilySearch_init E a k u p s b w)) = b @ ''/identity/v2/login''
   \<and> initialize_url (client_of (FamilySearch_init E a k u p s b w)) = b @ ''/identity/v2/initialize''
   \<and> authenticate_url (client_of (FamilySearch_init E a k u p s b w)) = b @ ''/identity/v2/authenticate''"
  by (simp add: init_client Let_def login_frame)

subsection \<open>C6: what \<open>initialize\<close> and \<open>authenticate\<close> post\<close>


subsection \<open>C7: the User-Agent header\<close>

text \<open>
  Claim C7. Take a client constructed with the agent string \<open>a\<close>, whatever the other
  arguments of the constructor, and any sequence of calls of \<open>login\<close>, \<open>initialize\<close>,
  \<open>authenticate\<close> and of the dispatch itself, with any arguments. Every request handed to
  the opener since the construction began, the login of the constructor included, has as
  its headers the one header \<^verbatim>\<open>User-Agent\<close>, whose value is \<open>a\<close> followed by a space and
  \<^verbatim>\<open>Python-FS-Stack/0.1\<close>. The request holds the header under the name \<^verbatim>\<open>User-agent\<close>,
  which is how \<^verbatim>\<open>add_header\<close> stores the name \<^verbatim>\<open>User-Agent\<close> (header names are
  case-insensitive).
\<close>

theorem user_agent_on_every_request:
  "list_all (\<lambda>r. req_headers r = [(''User-agent'', a @ '' Python-FS-Stack/0.1'')])
     (dispatched w (snd (run E cs (snd (FamilySearch_init E a k u p s b w)))))"
proof -
  obtain self1 w1 where i: "snd (FamilySearch_init E a k u p s b w) = (self1, w1)"
    by (cases "snd (FamilySearch_init E a k u p s b w)")
  have a1: "agent self1 = a @ '' Python-FS-Stack/0.1''"
    using init_agent_sent [of E a k u p s b w] i by simp
  obtain new1 where n1: "sent w1 = sent w @ new1"
      "list_all (carries (a @ '' Python-FS-Stack/0.1'')) new1"
    using init_agent_sent [of E a k u p s b w] i by auto
  obtain new2 where n2: "sent (snd (run E cs (self1, w1))) = sent w1 @ new2"
      "list_all (carries (agent self1)) new2"
    using run_agent_sent [of E cs self1 w1] by auto
  have "dispatched w (snd (run E cs (self1, w1))) = new1 @ new2"
    using n1 n2 by (simp add: dispatched_def)
  moreover have "list_all (carries (a @ '' Python-FS-Stack/0.1'')) (new1 @ new2)"
    using n1 n2 a1 by simp
  ultimately show ?thesis
    using i by (simp add: carries_def [abs_def])
qed

text \<open>
  The theorem at a run against the mock service: the login of the constructor, then
  \<open>initialize\<close>, \<open>authenticate\<close> and a GET. Four requests are handed to the opener, three
  POSTs and a GET, and each has the header.
\<close>

theorem user_agent_on_every_request_witness:
  "map get_method
     (dispatched world0 (snd (run mock
        [Initialize, Authenticate ''alice'' ''secret'', Dispatch ''http://www.dev.usys.org/x'' None]
        (snd (FamilySearch_init mock ''ClientApp/1.0'' ''developer_key''
                (Some ''alice'') (Some ''secret'') None default_base world0))))) =
     [POST, POST, POST, GET]
   \<and> list_all (\<lambda>r. req_headers r = [(''User-agent'', ''ClientApp/1.0 Python-FS-Stack/0.1'')])
     (dispatched world0 (snd (run mock
        [Initialize, Authenticate ''alice'' ''secret'', Dispatch ''http://www.dev.usys.org/x'' None]
        (snd (FamilySearch_init mock ''ClientApp/1.0'' ''developer_key''
                (Some ''alice'') (Some ''secret'') None default_base world0)))))"
proof -
  have m: "map get_method
     (dispatched world0 (snd (run mock
        [Initialize, Authenticate ''alice'' ''secret'', Dispatch ''http://www.dev.usys.org/x'' None]
        (snd (FamilySearch_init mock ''ClientApp/1.0'' ''developer_key''
                (Some ''alice'') (Some ''secret'') None default_base world0))))) =
     [POST, POST, POST, GET]"
    by code_simp
  show ?thesis
    using m user_agent_on_every_request [of "''ClientApp/1.0''" world0 mock
        "[Initialize, Authenticate ''alice'' ''secret'', Dispatch ''http://www.dev.usys.org/x'' None]"
        "''developer_key''" "Some ''alice''" "Some ''secret''" None default_base]
    by simp
qed

subsection \<open>C8: \<open>authenticate\<close> does not look at the session\<close>




subsection \<open>C9: the operations change the session field only\<close>

text \<open>
  Claim C9. Whether it succeeds or raises, each of \<open>login\<close>, \<open>initialize\<close> and
  \<open>authenticate\<close> leaves the agent string, the developer key, the base URL and the three
  endpoint URLs of the client as they were.
\<close>

theorem operations_change_session_only:
  "agent (client_of (login E self u p w)) = agent self
   \<and> key (client_of (login E self u p w)) = key self
   \<and> base (client_of (login E self u p w)) = base self
   \<and> login_url (client_of (login E self u p w)) = login_url self
   \<and> initialize_url (client_of (login E self u p w)) = initialize_url self
   \<and> authenticate_url (client_of (login E self u p w)) = authenticate_url self
   \<and> agent (client_of (initialize E self w)) = agent self
   \<and> key (client_of (initialize E self w)) = key self
   \<and> base (client_of (initialize E self w)) = base self
   \<and> login_url (client_of (initialize E self w)) = login_url self
   \<and> initialize_url (client_of (initialize E self w)) = initialize_url self
   \<and> authenticate_url (client_of (initialize E self w)) = authenticate_url self
   \<and> agent (client_of (authenticate E self u p w)) = agent self
   \<and> key (client_of (authenticate E self u p w)) = key self
   \<and> base (client_of (authenticate E self u p w)) = base self
   \<and> login_url (client_of (authenticate E self u p w)) = login_url self
   \<and> initialize_url (client_of (authenticate E self u p w)) = initialize_url self
   \<and> authenticate_url (client_of (authenticate E self u p w)) = authenticate_url self"
  by (simp add: login_parsed initialize_parsed authenticate_parsed parsed_frame request_frame)

subsection \<open>C10: no credentials, no login\<close>

text \<open>
  Claim C10. When the username or the password is absent (\<open>None\<close>) or the empty string, the
  constructor succeeds without logging in: the world is as it was, no request has been
  handed to the opener, and the session field is the session argument (\<open>None\<close> when it was
  left out).
\<close>

theorem constructor_without_credentials:
  "u = None \<or> u = Some [] \<or> p = None \<or> p = Some [] \<Longrightarrow>
   result_of (FamilySearch_init E a k u p s b w) = Inr ()
   \<and> session (client_of (FamilySearch_init E a k u p s b w)) = s
   \<and> world_of (FamilySearch_init E a k u p s b w) = w
   \<and> dispatched w (world_of (FamilySearch_init E a k u p s b w)) = []"
proof -
  assume "u = None \<or> u = Some [] \<or> p = None \<or> p = Some []"
  then have "\<not> (truthy u \<and> truthy p)" by (auto simp: truthy_def)
  then show ?thesis by (simp add: init_no_login dispatched_def)
qed

theorem constructor_without_credentials_witness:
  "(Some '''' = None \<or> Some '''' = Some [] \<or> Some ''secret'' = None \<or> Some ''secret'' = Some [])
   \<and> result_of (FamilySearch_init mock ''ClientApp/1.0'' ''developer_key'' (Some '''') (Some ''secret'')
         (Some ''session_id'') default_base world0) = Inr ()
   \<and> session (client_of (FamilySearch_init mock ''ClientApp/1.0'' ''developer_key'' (Some '''')
         (Some ''secret'') (Some ''session_id'') default_base world0)) = Some ''session_id''
   \<and> world_of (FamilySearch_init mock ''ClientApp/1.0'' ''developer_key'' (Some '''')
         (Some ''secret'') (Some ''session_id'') default_base world0) = world0"
proof -
  have h: "Some '''' = None \<or> Some '''' = Some [] \<or> Some ''secret'' = None \<or> Some ''secret'' = Some []"
    by simp
  show ?thesis
    using h constructor_without_credentials [OF h, of mock "''ClientApp/1.0''" "''developer_key''"
        "Some ''session_id''" default_base world0]
    by simp
qed

end
